theory Spec2Isabelle
  imports Complex_Main "HOL-Library.Char_ord" "HOL-Library.List_Lexorder"
begin

section \<open>Data model of EasySplit.py\<close>

text \<open>
  The module keeps two globals, \<^verbatim>\<open>participants\<close> (a list of names) and \<^verbatim>\<open>entries\<close>
  (a list of dicts with the keys bill_date, reference, payer, currency, amount, share).
  \<^verbatim>\<open>compute_result\<close> reads them and the rate table returned by
  \<^verbatim>\<open>get_exchange_rates\<close>. Names and currency codes are Python strings; amounts are
  Python floats, modelled here as exact reals (rounding is outside the model).
\<close>

record entry =
  bill_date :: string
  reference :: string
  payer :: string
  currency :: string
  amount :: real
  share :: "string list"

text \<open>
  A Python dict keeps its keys in insertion order and \<^verbatim>\<open>items()\<close> iterates in that order,
  so a dict is an association list with one pair per key. The nested
  \<^verbatim>\<open>defaultdict\<close>s of the source are nested association lists.
\<close>

type_synonym row = "(string \<times> real) list"
type_synonym matrix = "(string \<times> row) list"
type_synonym transfer = "(string \<times> matrix) list"
type_synonym transaction = "string \<times> string \<times> real"

text \<open>\<^verbatim>\<open>d[k] = f(d[k])\<close> on a \<^verbatim>\<open>defaultdict\<close> whose factory returns \<open>dflt\<close>: an existing key keeps
  its position, a missing key is appended with \<open>f dflt\<close>.\<close>

fun dd_update :: "'v \<Rightarrow> 'k \<Rightarrow> ('v \<Rightarrow> 'v) \<Rightarrow> ('k \<times> 'v) list \<Rightarrow> ('k \<times> 'v) list" where
  "dd_update dflt k f [] = [(k, f dflt)]"
| "dd_update dflt k f ((k', v) # m) =
     (if k' = k then (k', f v) # m else (k', v) # dd_update dflt k f m)"

text \<open>Reading \<^verbatim>\<open>d[k]\<close> on a \<^verbatim>\<open>defaultdict\<close> inserts the default for a missing key.\<close>

definition dd_touch :: "'v \<Rightarrow> 'k \<Rightarrow> ('k \<times> 'v) list \<Rightarrow> ('k \<times> 'v) list" where
  "dd_touch dflt k m = dd_update dflt k (\<lambda>v. v) m"

text \<open>\<^verbatim>\<open>d.get(k, dflt)\<close>; also the value that \<^verbatim>\<open>d[k]\<close> returns on a \<^verbatim>\<open>defaultdict\<close>.\<close>

definition dict_get :: "'v \<Rightarrow> 'k \<Rightarrow> ('k \<times> 'v) list \<Rightarrow> 'v" where
  "dict_get dflt k m = (case map_of m k of None \<Rightarrow> dflt | Some v \<Rightarrow> v)"

section \<open>compute_result, lines 65 to 79: the per-currency tallies\<close>

text \<open>\<^verbatim>\<open>transfer[currency][person][payer] += share_amt\<close>\<close>

definition add_owed :: "string \<Rightarrow> string \<Rightarrow> string \<Rightarrow> real \<Rightarrow> transfer \<Rightarrow> transfer" where
  "add_owed cur person pyr share_amt t =
     dd_update [] cur (dd_update [] person (dd_update 0 pyr (\<lambda>v. v + share_amt))) t"

text \<open>The body of \<^verbatim>\<open>for person in share_list\<close>; the state is \<open>(all_people, transfer)\<close>.\<close>

definition share_step ::
  "string \<Rightarrow> string \<Rightarrow> real \<Rightarrow> string \<Rightarrow> string set \<times> transfer \<Rightarrow> string set \<times> transfer" where
  "share_step cur pyr share_amt person st =
     (case st of (people, t) \<Rightarrow>
        (insert person people,
         if person \<noteq> pyr then add_owed cur person pyr share_amt t else t))"

text \<open>The body of \<^verbatim>\<open>for entry in entries\<close>.\<close>

definition entry_step :: "entry \<Rightarrow> string set \<times> transfer \<Rightarrow> string set \<times> transfer" where
  "entry_step e st =
     (let n = length (share e) in
      if n = 0 then st
      else let share_amt = amount e / real n
           in fold (share_step (currency e) (payer e) share_amt) (share e) st)"

definition entries_loop :: "string list \<Rightarrow> entry list \<Rightarrow> string set \<times> transfer" where
  "entries_loop participants entries = fold entry_step entries (set participants, [])"

definition all_people :: "string list \<Rightarrow> entry list \<Rightarrow> string set" where
  "all_people participants entries = fst (entries_loop participants entries)"

definition aggregate :: "entry list \<Rightarrow> transfer" where
  "aggregate entries = snd (entries_loop [] entries)"

section \<open>compute_result, lines 83 to 89: conversion into one matrix\<close>

text \<open>The rate table is the dict returned by \<^verbatim>\<open>get_exchange_rates\<close>; only
  \<^verbatim>\<open>conversion_rates.get(cur, 1.0)\<close> reads it.\<close>

definition rate_of :: "(string \<rightharpoonup> real) \<Rightarrow> string \<Rightarrow> real" where
  "rate_of conversion_rates cur = (case conversion_rates cur of None \<Rightarrow> 1 | Some r \<Rightarrow> r)"

text \<open>\<^verbatim>\<open>net_transfer[debtor][creditor] += amt * rate\<close>\<close>

definition add_converted :: "real \<Rightarrow> string \<Rightarrow> string \<times> real \<Rightarrow> matrix \<Rightarrow> matrix" where
  "add_converted rate debtor ca nt =
     (case ca of (creditor, amt) \<Rightarrow>
        dd_update [] debtor (dd_update 0 creditor (\<lambda>v. v + amt * rate)) nt)"

definition convert_matrix :: "real \<Rightarrow> matrix \<Rightarrow> matrix \<Rightarrow> matrix" where
  "convert_matrix rate m nt =
     fold (\<lambda>ds. case ds of (debtor, subdict) \<Rightarrow> fold (add_converted rate debtor) subdict) m nt"

definition normalize :: "(string \<rightharpoonup> real) \<Rightarrow> transfer \<Rightarrow> matrix" where
  "normalize conversion_rates t =
     fold (\<lambda>cm. case cm of (cur, m) \<Rightarrow> convert_matrix (rate_of conversion_rates cur) m) t []"

section \<open>compute_result, lines 93 to 104: pairwise netting\<close>

definition epsilon :: real where
  "epsilon = 1 / 10 ^ 9"

text \<open>\<^verbatim>\<open>reduced_matrix[debtor][creditor] = v\<close>\<close>

definition set_cell :: "string \<Rightarrow> string \<Rightarrow> real \<Rightarrow> matrix \<Rightarrow> matrix" where
  "set_cell debtor creditor v rm = dd_update [] debtor (dd_update 0 creditor (\<lambda>_. v)) rm"

text \<open>The state of the double loop is \<open>(net_transfer, reduced_matrix, transactions)\<close>:
  \<^verbatim>\<open>net_transfer[debtor]\<close> and \<^verbatim>\<open>net_transfer[creditor]\<close> are \<^verbatim>\<open>defaultdict\<close> reads, which
  insert an empty row for a person with none.\<close>

definition net_step ::
  "string \<Rightarrow> string \<Rightarrow> matrix \<times> matrix \<times> transaction list \<Rightarrow> matrix \<times> matrix \<times> transaction list" where
  "net_step debtor creditor st =
     (case st of (nt, rm, txs) \<Rightarrow>
        if debtor = creditor then (nt, rm, txs)
        else let nt1 = dd_touch [] debtor nt;
                 a = dict_get 0 creditor (dict_get [] debtor nt1);
                 nt2 = dd_touch [] creditor nt1;
                 b = dict_get 0 debtor (dict_get [] creditor nt2);
                 net_amt = a - b
             in if net_amt > epsilon
                then (nt2, set_cell debtor creditor net_amt rm, txs @ [(debtor, creditor, net_amt)])
                else (nt2, set_cell debtor creditor 0 rm, txs))"

definition net_loop ::
  "string list \<Rightarrow> matrix \<Rightarrow> matrix \<times> matrix \<times> transaction list" where
  "net_loop people_list nt =
     fold (\<lambda>debtor. fold (net_step debtor) people_list) people_list (nt, [], [])"

section \<open>compute_result, lines 106 to 137: the report\<close>

text \<open>The HTML text is not modelled character by character: the report keeps what the
  page shows (header, table rows, the list of transfers or the sentence that stands for
  it) with the amounts as numbers. The table reads \<^verbatim>\<open>reduced_matrix[debtor][creditor]\<close>
  only for pairs of different people of \<^verbatim>\<open>people_list\<close>, which the netting loop has all
  set, so these reads insert nothing.\<close>

datatype table_cell = Dash | Amount real

datatype transfer_section = TransferItems "transaction list" | AlreadySettled

datatype report =
    Report "string list" "(string \<times> table_cell list) list" transfer_section
  | NoValidData

definition table_row :: "string list \<Rightarrow> matrix \<Rightarrow> string \<Rightarrow> string \<times> table_cell list" where
  "table_row people_list rm debtor =
     (debtor, map (\<lambda>creditor. if debtor = creditor then Dash
                               else Amount (dict_get 0 creditor (dict_get [] debtor rm))) people_list)"

definition render :: "string list \<Rightarrow> matrix \<Rightarrow> transaction list \<Rightarrow> report" where
  "render people_list rm txs =
     (let html_result = Report people_list (map (table_row people_list rm) people_list)
                          (if txs \<noteq> [] then TransferItems txs else AlreadySettled)
      in if txs = [] \<and> \<not> list_ex (\<lambda>kv. sum_list (map snd (snd kv)) > epsilon) rm
         then NoValidData else html_result)"

section \<open>compute_result as a whole\<close>

text \<open>\<^verbatim>\<open>sorted(all_people)\<close> receives the members of a Python set in the set's iteration
  order, which is not fixed by the language for strings. \<open>order\<close> is that sequence.
  Python orders strings lexicographically by code point; the order on \<open>string\<close> used by
  \<open>sort\<close> is the lexicographic one on the characters, which for UTF-8 text is the same.\<close>

definition settle_from ::
  "string list \<Rightarrow> (string \<rightharpoonup> real) \<Rightarrow> entry list \<Rightarrow> string list \<times> matrix \<times> transaction list" where
  "settle_from order conversion_rates entries =
     (let people_list = sort order;
          net_transfer = normalize conversion_rates (aggregate entries)
      in case net_loop people_list net_transfer of
           (nt, reduced_matrix, transactions) \<Rightarrow> (people_list, reduced_matrix, transactions))"

definition compute_result_from :: "string list \<Rightarrow> (string \<rightharpoonup> real) \<Rightarrow> entry list \<Rightarrow> report" where
  "compute_result_from order conversion_rates entries =
     (case settle_from order conversion_rates entries of
        (people_list, reduced_matrix, transactions) \<Rightarrow>
          render people_list reduced_matrix transactions)"

definition people_list :: "string list \<Rightarrow> entry list \<Rightarrow> string list" where
  "people_list participants entries = sorted_list_of_set (all_people participants entries)"

definition settle ::
  "(string \<rightharpoonup> real) \<Rightarrow> string list \<Rightarrow> entry list \<Rightarrow> string list \<times> matrix \<times> transaction list" where
  "settle conversion_rates participants entries =
     settle_from (people_list participants entries) conversion_rates entries"

definition compute_result :: "(string \<rightharpoonup> real) \<Rightarrow> string list \<Rightarrow> entry list \<Rightarrow> report" where
  "compute_result conversion_rates participants entries =
     compute_result_from (people_list participants entries) conversion_rates entries"

section \<open>on_submit, lines 309 to 358: from the rows of the form to the entries\<close>












section \<open>Reading the tallies\<close>

text \<open>\<^verbatim>\<open>m[debtor].get(creditor, 0.0)\<close>: the amount a matrix holds for a pair, 0 when the
  pair has no key.\<close>

definition cell :: "matrix \<Rightarrow> string \<Rightarrow> string \<Rightarrow> real" where
  "cell m debtor creditor = dict_get 0 creditor (dict_get [] debtor m)"

text \<open>The same lookup, telling a missing key from a stored 0.\<close>

definition cell_opt :: "matrix \<Rightarrow> string \<Rightarrow> string \<Rightarrow> real option" where
  "cell_opt m debtor creditor =
     (case map_of m debtor of None \<Rightarrow> None | Some r \<Rightarrow> map_of r creditor)"

text \<open>What one entry adds to \<^verbatim>\<open>transfer[cur][p][q]\<close>: the share, once for every occurrence of
  \<open>p\<close> in the share list, when \<open>q\<close> paid and \<open>p\<close> is not the payer.\<close>

definition owed_by :: "entry \<Rightarrow> string \<Rightarrow> string \<Rightarrow> string \<Rightarrow> real" where
  "owed_by e cur p q =
     (if currency e = cur \<and> payer e = q \<and> p \<noteq> q
      then real (count_list (share e) p) * (amount e / real (length (share e))) else 0)"

text \<open>Every (currency, debtor, creditor, amount) of the per-currency matrices, in the order
  of the three nested \<^verbatim>\<open>items()\<close> loops.\<close>

definition items3 :: "transfer \<Rightarrow> (string \<times> string \<times> string \<times> real) list" where
  "items3 t =
     concat (map (\<lambda>(cur, m). concat (map (\<lambda>(debtor, subdict).
       map (\<lambda>(creditor, amt). (cur, debtor, creditor, amt)) subdict) m)) t)"

text \<open>What one such item adds to the unified cell \<open>(d, c)\<close>.\<close>

definition converted :: "(string \<rightharpoonup> real) \<Rightarrow> string \<Rightarrow> string \<Rightarrow> string \<times> string \<times> string \<times> real \<Rightarrow> real" where
  "converted conversion_rates d c item =
     (case item of (cur, debtor, creditor, amt) \<Rightarrow>
        if debtor = d \<and> creditor = c then amt * rate_of conversion_rates cur else 0)"

text \<open>\<^verbatim>\<open>net_transfer[i].get(j, 0.0) - net_transfer[j].get(i, 0.0)\<close>\<close>

definition net_amount :: "matrix \<Rightarrow> string \<Rightarrow> string \<Rightarrow> real" where
  "net_amount nt i j = cell nt i j - cell nt j i"

text \<open>The value the netting loop stores in \<^verbatim>\<open>reduced_matrix[i][j]\<close>.\<close>

definition dense_value :: "matrix \<Rightarrow> string \<Rightarrow> string \<Rightarrow> real" where
  "dense_value nt i j = (if net_amount nt i j > epsilon then net_amount nt i j else 0)"

text \<open>The variables \<^verbatim>\<open>net_transfer\<close>, \<^verbatim>\<open>reduced_matrix\<close> and \<^verbatim>\<open>transactions\<close> of
  \<^verbatim>\<open>compute_result\<close> as functions of its inputs.\<close>

definition net_transfer :: "(string \<rightharpoonup> real) \<Rightarrow> entry list \<Rightarrow> matrix" where
  "net_transfer conversion_rates entries = normalize conversion_rates (aggregate entries)"

definition reduced_matrix :: "(string \<rightharpoonup> real) \<Rightarrow> string list \<Rightarrow> entry list \<Rightarrow> matrix" where
  "reduced_matrix conversion_rates participants entries =
     fst (snd (settle conversion_rates participants entries))"

definition transactions :: "(string \<rightharpoonup> real) \<Rightarrow> string list \<Rightarrow> entry list \<Rightarrow> transaction list" where
  "transactions conversion_rates participants entries =
     snd (snd (settle conversion_rates participants entries))"

text \<open>A matrix has no key pair with debtor = creditor.\<close>

definition no_self_edges :: "matrix \<Rightarrow> bool" where
  "no_self_edges m = list_all (\<lambda>dr. list_all (\<lambda>cv. fst dr \<noteq> fst cv) (snd dr)) m"


section \<open>Auxiliary functions of the proofs\<close>

text \<open>The two components of the loop state, taken apart; the loops of the netting step
  written per row. These are used in the proofs only.\<close>

definition owed_loop :: "string \<Rightarrow> string \<Rightarrow> real \<Rightarrow> string list \<Rightarrow> transfer \<Rightarrow> transfer" where
  "owed_loop cur pyr a xs t =
     fold (\<lambda>person t. if person \<noteq> pyr then add_owed cur person pyr a t else t) xs t"

definition entry_transfer :: "entry \<Rightarrow> transfer \<Rightarrow> transfer" where
  "entry_transfer e t =
     (if share e = [] then t
      else owed_loop (currency e) (payer e) (amount e / real (length (share e))) (share e) t)"

definition touched :: "string \<Rightarrow> string list \<Rightarrow> matrix \<Rightarrow> matrix" where
  "touched d cs nt = fold (\<lambda>c nt. if d = c then nt else dd_touch [] c (dd_touch [] d nt)) cs nt"

definition touched_all :: "string list \<Rightarrow> string list \<Rightarrow> matrix \<Rightarrow> matrix" where
  "touched_all ds ps nt = fold (\<lambda>d. touched d ps) ds nt"

definition row_fill :: "string \<Rightarrow> string list \<Rightarrow> (string \<Rightarrow> real) \<Rightarrow> matrix \<Rightarrow> matrix" where
  "row_fill d cs g rm = fold (\<lambda>c rm. if d = c then rm else set_cell d c (g c) rm) cs rm"

definition row_transfers :: "matrix \<Rightarrow> string list \<Rightarrow> string \<Rightarrow> transaction list" where
  "row_transfers nt cs d =
     map (\<lambda>c. (d, c, net_amount nt d c)) (filter (\<lambda>c. d \<noteq> c \<and> net_amount nt d c > epsilon) cs)"

section \<open>Dictionaries\<close>

lemma map_of_dd_update:
  "map_of (dd_update dflt k f m) k' =
     (if k' = k then Some (f (dict_get dflt k m)) else map_of m k')"
  by (induction m) (auto simp: dict_get_def)

lemma dict_get_dd_update:
  "dict_get dflt' k' (dd_update dflt k f m) =
     (if k' = k then f (dict_get dflt k m) else dict_get dflt' k' m)"
  by (simp add: dict_get_def map_of_dd_update)

lemma cell_update:
  "cell (dd_update [] d (dd_update 0 c f) m) d' c' =
     (if d' = d \<and> c' = c then f (cell m d c) else cell m d' c')"
  by (simp add: cell_def dict_get_dd_update)

lemma cell_opt_update:
  "cell_opt (dd_update [] d (dd_update 0 c f) m) d' c' =
     (if d' = d \<and> c' = c then Some (f (cell m d c)) else cell_opt m d' c')"
  by (auto simp: cell_opt_def cell_def map_of_dd_update dict_get_def split: option.splits)

lemma cell_touch: "cell (dd_touch [] k m) d c = cell m d c"
  by (simp add: cell_def dd_touch_def dict_get_dd_update)

lemma cell_opt_touch: "cell_opt (dd_touch [] k m) d c = cell_opt m d c"
  by (auto simp: cell_opt_def dd_touch_def map_of_dd_update dict_get_def split: option.splits)

section \<open>The tallies of the aggregation\<close>

lemma cell_add_owed:
  "cell (dict_get [] cur' (add_owed cur p q a t)) p' q' =
     cell (dict_get [] cur' t) p' q' + (if cur' = cur \<and> p' = p \<and> q' = q then a else 0)"
  by (simp add: add_owed_def dict_get_dd_update cell_update)

lemma fold_share_step:
  "fold (share_step cur pyr a) xs (P, t) = (P \<union> set xs, owed_loop cur pyr a xs t)"
  by (induction xs arbitrary: P t) (auto simp: share_step_def owed_loop_def)

lemma entry_step_eq: "entry_step e (P, t) = (P \<union> set (share e), entry_transfer e t)"
  by (simp add: entry_step_def entry_transfer_def Let_def fold_share_step)

lemma fold_entry_step:
  "fold entry_step es (P, t) = (P \<union> (\<Union>e\<in>set es. set (share e)), fold entry_transfer es t)"
  by (induction es arbitrary: P t) (auto simp: entry_step_eq)

lemma all_people_eq: "all_people ps es = set ps \<union> (\<Union>e\<in>set es. set (share e))"
  by (simp add: all_people_def entries_loop_def fold_entry_step)

lemma aggregate_eq: "aggregate es = fold entry_transfer es []"
  by (simp add: aggregate_def entries_loop_def fold_entry_step)

lemma finite_all_people: "finite (all_people ps es)"
  by (simp add: all_people_eq)

lemma cell_owed_loop:
  "cell (dict_get [] cur' (owed_loop cur pyr a xs t)) p q =
     cell (dict_get [] cur' t) p q +
     (if cur' = cur \<and> q = pyr \<and> p \<noteq> pyr then real (count_list xs p) * a else 0)"
  by (induction xs arbitrary: t) (auto simp: owed_loop_def cell_add_owed algebra_simps)

lemma cell_entry_transfer:
  "cell (dict_get [] cur (entry_transfer e t)) p q = cell (dict_get [] cur t) p q + owed_by e cur p q"
  by (auto simp: entry_transfer_def cell_owed_loop owed_by_def)

lemma cell_fold_entry_transfer:
  "cell (dict_get [] cur (fold entry_transfer es t)) p q =
     cell (dict_get [] cur t) p q + (\<Sum>e\<leftarrow>es. owed_by e cur p q)"
  by (induction es arbitrary: t) (simp_all add: cell_entry_transfer)

lemma cell_aggregate:
  "cell (dict_get [] cur (aggregate es)) p q = (\<Sum>e\<leftarrow>es. owed_by e cur p q)"
proof -
  have "cell (dict_get [] cur []) p q = 0"
    by (simp add: cell_def dict_get_def)
  then show ?thesis
    by (simp add: aggregate_eq cell_fold_entry_transfer)
qed

section \<open>The unified matrix\<close>

lemma cell_add_converted:
  "cell (add_converted rate debtor (creditor, amt) nt) d c =
     cell nt d c + (if debtor = d \<and> creditor = c then amt * rate else 0)"
  by (simp add: add_converted_def cell_update)

lemma cell_fold_add_converted:
  "cell (fold (add_converted rate debtor) subdict nt) d c =
     cell nt d c + (\<Sum>(creditor, amt)\<leftarrow>subdict. if debtor = d \<and> creditor = c then amt * rate else 0)"
  by (induction subdict arbitrary: nt) (auto simp: cell_add_converted)

lemma cell_convert_matrix:
  "cell (convert_matrix rate m nt) d c =
     cell nt d c + (\<Sum>(debtor, subdict)\<leftarrow>m. \<Sum>(creditor, amt)\<leftarrow>subdict.
                      if debtor = d \<and> creditor = c then amt * rate else 0)"
  unfolding convert_matrix_def
  by (induction m arbitrary: nt) (auto simp: cell_fold_add_converted)

lemma cell_fold_convert:
  "cell (fold (\<lambda>cm. case cm of (cur, m) \<Rightarrow> convert_matrix (rate_of rs cur) m) t nt) d c =
     cell nt d c + (\<Sum>item\<leftarrow>items3 t. converted rs d c item)"
proof (induction t arbitrary: nt)
  case Nil
  show ?case by (simp add: items3_def)
next
  case (Cons cm t)
  obtain cur m where cm: "cm = (cur, m)" by (cases cm)
  have "(\<Sum>item\<leftarrow>items3 [(cur, m)]. converted rs d c item) =
        (\<Sum>(debtor, subdict)\<leftarrow>m. \<Sum>(creditor, amt)\<leftarrow>subdict.
            if debtor = d \<and> creditor = c then amt * rate_of rs cur else 0)"
    by (induction m) (auto simp: items3_def converted_def comp_def case_prod_unfold cong: if_cong)
  moreover have "items3 (cm # t) = items3 [(cur, m)] @ items3 t"
    by (simp add: items3_def cm)
  ultimately show ?case
    by (simp add: Cons.IH cm cell_convert_matrix)
qed

lemma cell_normalize:
  "cell (normalize rs t) d c = (\<Sum>item\<leftarrow>items3 t. converted rs d c item)"
proof -
  have "cell [] d c = 0" by (simp add: cell_def dict_get_def)
  then show ?thesis by (simp add: normalize_def cell_fold_convert)
qed

section \<open>The netting loop\<close>

lemma cell_touched: "cell (touched d cs nt) i j = cell nt i j"
  unfolding touched_def by (induction cs arbitrary: nt) (auto simp: cell_touch)

lemma net_step_eq:
  "net_step d c (nt, rm, txs) =
     (if d = c then (nt, rm, txs)
      else (dd_touch [] c (dd_touch [] d nt), set_cell d c (dense_value nt d c) rm,
            txs @ (if net_amount nt d c > epsilon then [(d, c, net_amount nt d c)] else [])))"
  by (simp add: net_step_def Let_def dense_value_def net_amount_def cell_def[symmetric] cell_touch)

lemma net_amount_touch [simp]: "net_amount (dd_touch [] k nt) i j = net_amount nt i j"
  by (simp add: net_amount_def cell_touch)

lemma dense_value_touch [simp]: "dense_value (dd_touch [] k nt) i j = dense_value nt i j"
  by (simp add: dense_value_def)

lemma net_amount_touched [simp]: "net_amount (touched d cs nt) i j = net_amount nt i j"
  by (simp add: net_amount_def cell_touched)

lemma dense_value_touched [simp]: "dense_value (touched d cs nt) i j = dense_value nt i j"
  by (simp add: dense_value_def)

lemma fold_net_step:
  "fold (net_step d) cs (nt, rm, txs) =
     (touched d cs nt, row_fill d cs (dense_value nt d) rm, txs @ row_transfers nt cs d)"
proof (induction cs arbitrary: nt rm txs)
  case Nil
  show ?case by (simp add: touched_def row_fill_def row_transfers_def)
next
  case (Cons c cs)
  show ?case
  proof (cases "d = c")
    case True
    then show ?thesis
      using Cons.IH [of nt rm txs]
      by (simp add: net_step_eq touched_def row_fill_def row_transfers_def)
  next
    case False
    let ?nt1 = "dd_touch [] c (dd_touch [] d nt)"
    have nt1: "net_amount ?nt1 = net_amount nt" "dense_value ?nt1 = dense_value nt"
      by (simp_all add: fun_eq_iff)
    have rt: "row_transfers ?nt1 cs d = row_transfers nt cs d"
      by (simp add: row_transfers_def)
    from False show ?thesis
      using Cons.IH [of ?nt1]
      by (simp add: net_step_eq touched_def row_fill_def row_transfers_def nt1)
  qed
qed

lemma cell_touched_all: "cell (touched_all ds ps nt) i j = cell nt i j"
  unfolding touched_all_def by (induction ds arbitrary: nt) (auto simp: cell_touched)

lemma fold_fold_net_step:
  "fold (\<lambda>d. fold (net_step d) ps) ds (nt, rm, txs) =
     (touched_all ds ps nt,
      fold (\<lambda>d. row_fill d ps (dense_value nt d)) ds rm,
      txs @ concat (map (row_transfers nt ps) ds))"
proof (induction ds arbitrary: nt rm txs)
  case Nil
  show ?case by (simp add: touched_all_def)
next
  case (Cons d ds)
  let ?nt1 = "touched d ps nt"
  have nt1: "dense_value ?nt1 = dense_value nt" "row_transfers ?nt1 ps = row_transfers nt ps"
    by (simp_all add: fun_eq_iff row_transfers_def)
  show ?case
    using Cons.IH [of ?nt1]
    by (simp add: fold_net_step touched_all_def nt1)
qed

lemma net_loop_eq:
  "net_loop ps nt =
     (touched_all ps ps nt,
      fold (\<lambda>d. row_fill d ps (dense_value nt d)) ps [],
      concat (map (row_transfers nt ps) ps))"
  by (simp add: net_loop_def fold_fold_net_step)

lemma cell_opt_set_cell:
  "cell_opt (set_cell d c v rm) d' c' = (if d' = d \<and> c' = c then Some v else cell_opt rm d' c')"
  by (simp add: set_cell_def cell_opt_update)

lemma cell_opt_row_fill:
  "cell_opt (row_fill d cs g rm) d' c' =
     (if d' = d \<and> c' \<in> set cs \<and> c' \<noteq> d then Some (g c') else cell_opt rm d' c')"
  unfolding row_fill_def
  by (induction cs arbitrary: rm) (auto simp: cell_opt_set_cell)

lemma cell_opt_fill:
  "cell_opt (fold (\<lambda>d. row_fill d ps (G d)) ds rm) d' c' =
     (if d' \<in> set ds \<and> c' \<in> set ps \<and> c' \<noteq> d' then Some (G d' c') else cell_opt rm d' c')"
  by (induction ds arbitrary: rm) (auto simp: cell_opt_row_fill)

lemma people_list_props:
  "sorted (people_list ps es)" "distinct (people_list ps es)"
  "set (people_list ps es) = all_people ps es"
  by (simp_all add: people_list_def finite_all_people)

lemma sort_people_list: "sort (people_list ps es) = people_list ps es"
  by (simp add: sorted_sort_id people_list_props)

lemma settle_eq:
  "settle rs ps es =
     (people_list ps es,
      fold (\<lambda>d. row_fill d (people_list ps es) (dense_value (net_transfer rs es) d)) (people_list ps es) [],
      concat (map (row_transfers (net_transfer rs es) (people_list ps es)) (people_list ps es)))"
  by (simp add: settle_def settle_from_def sort_people_list net_loop_eq net_transfer_def Let_def)

lemma transactions_eq:
  "transactions rs ps es =
     concat (map (row_transfers (net_transfer rs es) (people_list ps es)) (people_list ps es))"
  by (simp add: transactions_def settle_eq)

lemma reduced_matrix_cell:
  "cell_opt (reduced_matrix rs ps es) i j =
     (if i \<in> set (people_list ps es) \<and> j \<in> set (people_list ps es) \<and> i \<noteq> j
      then Some (dense_value (net_transfer rs es) i j) else None)"
proof -
  have "cell_opt [] i j = None"
    by (simp add: cell_opt_def)
  then show ?thesis
    by (auto simp: reduced_matrix_def settle_eq cell_opt_fill)
qed

lemma transactions_mem:
  "(i, j, a) \<in> set (transactions rs ps es) \<longleftrightarrow>
     i \<in> set (people_list ps es) \<and> j \<in> set (people_list ps es) \<and> i \<noteq> j \<and>
     a = net_amount (net_transfer rs es) i j \<and> epsilon < a"
  by (auto simp: transactions_eq row_transfers_def)

section \<open>No self pairs\<close>

lemma no_self_edges_Nil: "no_self_edges []"
  by (simp add: no_self_edges_def)

lemma no_self_edges_Cons:
  "no_self_edges ((d, r) # m) \<longleftrightarrow> list_all (\<lambda>cv. d \<noteq> fst cv) r \<and> no_self_edges m"
  by (simp add: no_self_edges_def)

lemma list_all_dd_update:
  assumes "list_all (\<lambda>kv. P (fst kv) (snd kv)) m" and "P k (f dflt)"
    and "\<And>v. P k v \<Longrightarrow> P k (f v)"
  shows "list_all (\<lambda>kv. P (fst kv) (snd kv)) (dd_update dflt k f m)"
  using assms by (induction m) auto

lemma no_self_edges_update:
  assumes "no_self_edges m" and "d \<noteq> c"
  shows "no_self_edges (dd_update [] d (dd_update 0 c f) m)"
proof -
  have row: "list_all (\<lambda>cv. d \<noteq> fst cv) (dd_update 0 c f r)"
    if "list_all (\<lambda>cv. d \<noteq> fst cv) r" for r
    using that assms(2) list_all_dd_update [of "\<lambda>k v. d \<noteq> k" r c f 0] by simp
  show ?thesis
    unfolding no_self_edges_def
    using assms(1) row row [of "[]"]
      list_all_dd_update [of "\<lambda>k r. list_all (\<lambda>cv. k \<noteq> fst cv) r" m d "dd_update 0 c f" "[]"]
    by (simp add: no_self_edges_def)
qed

lemma no_self_edges_touch: "no_self_edges m \<Longrightarrow> no_self_edges (dd_touch [] k m)"
  unfolding no_self_edges_def dd_touch_def
  using list_all_dd_update [of "\<lambda>k r. list_all (\<lambda>cv. k \<noteq> fst cv) r" m k "\<lambda>v. v" "[]"]
  by simp

lemma no_self_edges_add_owed:
  assumes "list_all (\<lambda>cm. no_self_edges (snd cm)) t" and "p \<noteq> q"
  shows "list_all (\<lambda>cm. no_self_edges (snd cm)) (add_owed cur p q a t)"
proof -
  let ?G = "dd_update [] p (dd_update 0 q (\<lambda>v. v + a))"
  have "list_all (\<lambda>kv. (\<lambda>k m. no_self_edges m) (fst kv) (snd kv)) (dd_update [] cur ?G t)"
  proof (rule list_all_dd_update)
    show "list_all (\<lambda>kv. (\<lambda>k m. no_self_edges m) (fst kv) (snd kv)) t"
      using assms(1) by simp
    show "no_self_edges (?G [])"
      by (rule no_self_edges_update [OF no_self_edges_Nil assms(2)])
    show "no_self_edges (?G v)" if "no_self_edges v" for v
      by (rule no_self_edges_update [OF that assms(2)])
  qed
  then show ?thesis
    by (simp add: add_owed_def)
qed

lemma no_self_edges_owed_loop:
  "list_all (\<lambda>cm. no_self_edges (snd cm)) t \<Longrightarrow>
   list_all (\<lambda>cm. no_self_edges (snd cm)) (owed_loop cur pyr a xs t)"
  unfolding owed_loop_def
  by (induction xs arbitrary: t) (auto simp: no_self_edges_add_owed)

lemma no_self_edges_fold_entry_transfer:
  "list_all (\<lambda>cm. no_self_edges (snd cm)) t \<Longrightarrow>
   list_all (\<lambda>cm. no_self_edges (snd cm)) (fold entry_transfer es t)"
  by (induction es arbitrary: t) (auto simp: entry_transfer_def no_self_edges_owed_loop)

lemma no_self_edges_aggregate: "list_all (\<lambda>cm. no_self_edges (snd cm)) (aggregate es)"
  by (simp add: aggregate_eq no_self_edges_fold_entry_transfer)

lemma no_self_edges_fold_add_converted:
  "list_all (\<lambda>cv. d \<noteq> fst cv) subdict \<Longrightarrow> no_self_edges nt \<Longrightarrow>
   no_self_edges (fold (add_converted rate d) subdict nt)"
  by (induction subdict arbitrary: nt) (auto simp: add_converted_def no_self_edges_update)

lemma no_self_edges_convert_matrix:
  "no_self_edges m \<Longrightarrow> no_self_edges nt \<Longrightarrow> no_self_edges (convert_matrix rate m nt)"
  unfolding convert_matrix_def
  by (induction m arbitrary: nt) (auto simp: no_self_edges_Cons no_self_edges_fold_add_converted)

lemma no_self_edges_fold_convert:
  "list_all (\<lambda>cm. no_self_edges (snd cm)) t \<Longrightarrow> no_self_edges nt \<Longrightarrow>
   no_self_edges (fold (\<lambda>cm. case cm of (cur, m) \<Rightarrow> convert_matrix (rate_of rs cur) m) t nt)"
  by (induction t arbitrary: nt) (auto simp: no_self_edges_convert_matrix)

lemma no_self_edges_normalize:
  "list_all (\<lambda>cm. no_self_edges (snd cm)) t \<Longrightarrow> no_self_edges (normalize rs t)"
  by (simp add: normalize_def no_self_edges_fold_convert no_self_edges_Nil)

lemma no_self_edges_net_transfer: "no_self_edges (net_transfer rs es)"
  by (simp add: net_transfer_def no_self_edges_normalize no_self_edges_aggregate)

lemma no_self_edges_touched: "no_self_edges nt \<Longrightarrow> no_self_edges (touched d cs nt)"
  unfolding touched_def
  by (induction cs arbitrary: nt) (auto simp: no_self_edges_touch)

lemma no_self_edges_touched_all: "no_self_edges nt \<Longrightarrow> no_self_edges (touched_all ds ps nt)"
  unfolding touched_all_def
  by (induction ds arbitrary: nt) (auto simp: no_self_edges_touched)

lemma no_self_edges_row_fill: "no_self_edges rm \<Longrightarrow> no_self_edges (row_fill d cs g rm)"
  unfolding row_fill_def
  by (induction cs arbitrary: rm) (auto simp: set_cell_def no_self_edges_update)

lemma no_self_edges_fill:
  "no_self_edges rm \<Longrightarrow> no_self_edges (fold (\<lambda>d. row_fill d ps (G d)) ds rm)"
  by (induction ds arbitrary: rm) (auto simp: no_self_edges_row_fill)

lemma no_self_edges_reduced: "no_self_edges (reduced_matrix rs ps es)"
  by (simp add: reduced_matrix_def settle_eq no_self_edges_fill no_self_edges_Nil)

section \<open>Order of iteration, empty input, the rows of the form\<close>

lemma sort_enumeration:
  "distinct order \<Longrightarrow> set order = all_people ps es \<Longrightarrow> sort order = people_list ps es"
proof -
  assume d: "distinct order" and s: "set order = all_people ps es"
  have "sorted_list_of_set (set order) = sort (remdups order)"
    by (rule sorted_list_of_set_sort_remdups)
  with d s show ?thesis
    by (simp add: people_list_def distinct_remdups_id)
qed

lemma settle_from_enumeration:
  "distinct order \<Longrightarrow> set order = all_people ps es \<Longrightarrow>
   settle_from order rs es = settle rs ps es"
  by (simp add: settle_def settle_from_def sort_enumeration sort_people_list)















lemma normalize_cong: "(\<And>cur. rate_of rs cur = rate_of rs' cur) \<Longrightarrow> normalize rs t = normalize rs' t"
  by (simp add: normalize_def)




section \<open>The claims\<close>



text \<open>
  C2. For every list of entries, the per-currency tally \<open>matrix[currency][p][payer]\<close> is
  the sum, over the entries, of \<open>share = amount / |shared-by|\<close> for each occurrence of a
  participant \<open>p \<noteq> payer\<close> in the entry's share list. An entry whose share list is empty
  is skipped: the tallies are those of the list without it, and the computation is the
  total function \<open>aggregate\<close>, which has no error result.
\<close>

theorem aggregate_shares:
  "cell (dict_get [] cur (aggregate es)) p q =
     (\<Sum>e\<leftarrow>es. if currency e = cur \<and> payer e = q \<and> p \<noteq> q
                then real (count_list (share e) p) * (amount e / real (length (share e)))
                else 0) \<and>
   aggregate (es @ [e\<lparr>share := []\<rparr>] @ es') = aggregate (es @ es') \<and>
   entry_step (e\<lparr>share := []\<rparr>) st = st"
proof -
  have "entry_transfer (e\<lparr>share := []\<rparr>) t = t" for t
    by (simp add: entry_transfer_def)
  then have "aggregate (es @ [e\<lparr>share := []\<rparr>] @ es') = aggregate (es @ es')"
    by (simp add: aggregate_eq)
  moreover have "entry_step (e\<lparr>share := []\<rparr>) st = st"
    by (simp add: entry_step_def)
  moreover have "cell (dict_get [] cur (aggregate es)) p q =
     (\<Sum>e\<leftarrow>es. if currency e = cur \<and> payer e = q \<and> p \<noteq> q
                then real (count_list (share e) p) * (amount e / real (length (share e)))
                else 0)"
    by (simp add: cell_aggregate owed_by_def [abs_def])
  ultimately show ?thesis by blast
qed

text \<open>
  C5. Normalization multiplies every (debtor, creditor) amount of each per-currency
  matrix by the rate factor of its currency and accumulates the products at the same
  (debtor, creditor) key of the unified matrix: a unified cell is the sum of those
  products over all per-currency items with that key. In particular an amount of 100 in
  a currency whose factor is 0.5 adds exactly 50, both for a per-currency matrix cell of
  100 and for an expense entry of 100 owed by one sharer.
\<close>

theorem normalize_scales:
  "cell (normalize rs t) d c =
     (\<Sum>(cur, debtor, creditor, amt)\<leftarrow>items3 t.
         if debtor = d \<and> creditor = c then amt * rate_of rs cur else 0) \<and>
   cell (normalize [''X'' \<mapsto> 1 / 2] [(''X'', [(''Bob'', [(''Alice'', 100)])])]) ''Bob'' ''Alice'' = 50 \<and>
   cell (net_transfer [''X'' \<mapsto> 1 / 2]
           [\<lparr>bill_date = ''d1'', reference = ''taxi'', payer = ''Alice'', currency = ''X'',
              amount = 100, share = [''Bob'']\<rparr>]) ''Bob'' ''Alice'' = 50"
proof -
  have "cell (normalize rs t) d c =
     (\<Sum>(cur, debtor, creditor, amt)\<leftarrow>items3 t.
         if debtor = d \<and> creditor = c then amt * rate_of rs cur else 0)"
    by (simp add: cell_normalize converted_def [abs_def])
  moreover have
    "cell (normalize [''X'' \<mapsto> 1 / 2] [(''X'', [(''Bob'', [(''Alice'', 100)])])]) ''Bob'' ''Alice'' = 50"
    by code_simp
  moreover have "cell (net_transfer [''X'' \<mapsto> 1 / 2]
           [\<lparr>bill_date = ''d1'', reference = ''taxi'', payer = ''Alice'', currency = ''X'',
              amount = 100, share = [''Bob'']\<rparr>]) ''Bob'' ''Alice'' = 50"
    by code_simp
  ultimately show ?thesis by blast
qed

text \<open>
  C7. No transfer of the output has the same person as debtor and creditor, and no
  matrix of any stage has a key pair with debtor = creditor: not the per-currency
  matrices of the aggregation, not the unified matrix, also not after the netting loop
  has read it, and not the dense matrix.
\<close>

theorem no_self_transfers:
  "(\<forall>t \<in> set (transactions rs ps es). fst t \<noteq> fst (snd t)) \<and>
   list_all (\<lambda>cm. no_self_edges (snd cm)) (aggregate es) \<and>
   no_self_edges (net_transfer rs es) \<and>
   no_self_edges (fst (net_loop (people_list ps es) (net_transfer rs es))) \<and>
   no_self_edges (reduced_matrix rs ps es)"
proof -
  have "\<forall>t \<in> set (transactions rs ps es). fst t \<noteq> fst (snd t)"
    using transactions_mem [of _ _ _ rs ps es] by auto
  moreover have "no_self_edges (fst (net_loop (people_list ps es) (net_transfer rs es)))"
    by (simp add: net_loop_eq no_self_edges_touched_all no_self_edges_net_transfer)
  ultimately show ?thesis
    using no_self_edges_aggregate [of es] no_self_edges_net_transfer [of rs es]
      no_self_edges_reduced [of rs ps es]
    by blast
qed

theorem no_self_transfers_witness:
  "''Bob'' \<noteq> ''Alice'' \<and>
   aggregate [\<lparr>bill_date = ''d1'', reference = ''hotel'', payer = ''Alice'', currency = ''GBP'',
                amount = 120, share = [''Alice'', ''Bob'']\<rparr>]
     = [(''GBP'', [(''Bob'', [(''Alice'', 60)])])] \<and>
   no_self_edges [(''Bob'', [(''Alice'', 60)])]"
proof -
  let ?es = "[\<lparr>bill_date = ''d1'', reference = ''hotel'', payer = ''Alice'', currency = ''GBP'',
                amount = 120, share = [''Alice'', ''Bob'']\<rparr>]"
  have tx: "transactions Map.empty [''Bob'', ''Alice''] ?es = [(''Bob'', ''Alice'', 60)]"
    by code_simp
  have ag: "aggregate ?es = [(''GBP'', [(''Bob'', [(''Alice'', 60)])])]"
    by code_simp
  have "(\<forall>t \<in> set (transactions Map.empty [''Bob'', ''Alice''] ?es). fst t \<noteq> fst (snd t)) \<and>
        list_all (\<lambda>cm. no_self_edges (snd cm)) (aggregate ?es)"
    using no_self_transfers [of Map.empty "[''Bob'', ''Alice'']" ?es] by blast
  then show ?thesis
    unfolding tx ag by simp
qed

text \<open>
  C3, as the code has it. Normalization has no error result: a currency with no entry
  in the rate table is converted with the factor 1.0, the default of
  \<^verbatim>\<open>conversion_rates.get(curr, 1.0)\<close>, so the unified matrix is the one of the rate
  table extended by that currency at rate 1. First the claim as written, refuted at an
  entry in a currency the table lacks: a unified matrix is produced.
\<close>

theorem missing_rate_counterexample:
  "(Map.empty :: string \<rightharpoonup> real) ''USD'' = None \<and>
   normalize Map.empty
     (aggregate [\<lparr>bill_date = ''d1'', reference = ''hotel'', payer = ''Alice'',
                   currency = ''USD'', amount = 100, share = [''Alice'', ''Bob'']\<rparr>])
     = [(''Bob'', [(''Alice'', 50)])]"
  by code_simp

text \<open>
  C3, amended. For every rate table and every per-currency tally, a currency with no
  entry in the rate table is normalized as if its rate were 1: the result is the unified
  matrix of the table with that currency added at factor 1, never an error.
\<close>

theorem missing_rate_defaults_to_one:
  "conversion_rates cur = None \<Longrightarrow>
   rate_of conversion_rates cur = 1 \<and>
   normalize conversion_rates t = normalize (conversion_rates(cur \<mapsto> 1)) t"
proof -
  assume none: "conversion_rates cur = None"
  then have "rate_of conversion_rates c = rate_of (conversion_rates(cur \<mapsto> 1)) c" for c
    by (simp add: rate_of_def)
  then have "normalize conversion_rates t = normalize (conversion_rates(cur \<mapsto> 1)) t"
    by (rule normalize_cong)
  with none show ?thesis
    by (simp add: rate_of_def)
qed

theorem missing_rate_defaults_to_one_witness:
  "[''EUR'' \<mapsto> (43 / 50 :: real)] ''USD'' = None \<and>
   normalize [''EUR'' \<mapsto> 43 / 50] [(''USD'', [(''Bob'', [(''Alice'', 50)])])]
     = normalize [''EUR'' \<mapsto> 43 / 50, ''USD'' \<mapsto> 1] [(''USD'', [(''Bob'', [(''Alice'', 50)])])]"
proof -
  have none: "[''EUR'' \<mapsto> (43 / 50 :: real)] ''USD'' = None"
    by simp
  show ?thesis
    using none
      missing_rate_defaults_to_one [of "[''EUR'' \<mapsto> 43 / 50]" "''USD''"
        "[(''USD'', [(''Bob'', [(''Alice'', 50)])])]"]
    by simp
qed




text \<open>
  C8. The computation reads no input besides the entries, the participants and the rate
  table, except the order in which \<^verbatim>\<open>sorted\<close> receives the members of the set
  \<^verbatim>\<open>all_people\<close>. Two runs on the same input, whatever these two orders are, produce the
  same sorted list, the same dense matrix, the same transfer list and the same report.
\<close>

theorem settlement_deterministic:
  "distinct order1 \<Longrightarrow> set order1 = all_people ps es \<Longrightarrow>
   distinct order2 \<Longrightarrow> set order2 = all_people ps es \<Longrightarrow>
   settle_from order1 rs es = settle_from order2 rs es \<and>
   compute_result_from order1 rs es = compute_result_from order2 rs es \<and>
   compute_result_from order1 rs es = compute_result rs ps es"
  by (simp add: compute_result_from_def compute_result_def settle_from_enumeration settle_def [symmetric])

theorem settlement_deterministic_witness:
  "distinct [''Bob'', ''Alice''] \<and> distinct [''Alice'', ''Bob''] \<and>
   set [''Bob'', ''Alice''] = all_people [''Bob'']
     [\<lparr>bill_date = ''d1'', reference = ''hotel'', payer = ''Alice'', currency = ''GBP'',
        amount = 120, share = [''Alice'', ''Bob'']\<rparr>] \<and>
   set [''Alice'', ''Bob''] = all_people [''Bob'']
     [\<lparr>bill_date = ''d1'', reference = ''hotel'', payer = ''Alice'', currency = ''GBP'',
        amount = 120, share = [''Alice'', ''Bob'']\<rparr>] \<and>
   compute_result_from [''Bob'', ''Alice''] Map.empty
     [\<lparr>bill_date = ''d1'', reference = ''hotel'', payer = ''Alice'', currency = ''GBP'',
        amount = 120, share = [''Alice'', ''Bob'']\<rparr>] =
   compute_result_from [''Alice'', ''Bob''] Map.empty
     [\<lparr>bill_date = ''d1'', reference = ''hotel'', payer = ''Alice'', currency = ''GBP'',
        amount = 120, share = [''Alice'', ''Bob'']\<rparr>]"
proof -
  let ?es = "[\<lparr>bill_date = ''d1'', reference = ''hotel'', payer = ''Alice'', currency = ''GBP'',
        amount = 120, share = [''Alice'', ''Bob'']\<rparr>]"
  have d: "distinct [''Bob'', ''Alice'']" "distinct [''Alice'', ''Bob'']"
    by simp_all
  have s: "set [''Bob'', ''Alice''] = all_people [''Bob''] ?es"
    "set [''Alice'', ''Bob''] = all_people [''Bob''] ?es"
    by (auto simp: all_people_eq)
  from d s settlement_deterministic [OF d(1) s(1) d(2) s(2), of Map.empty]
  show ?thesis
    by blast
qed



text \<open>
  C10. When the payer of some entry is neither a registered participant nor a member
  of any entry's share list, the payer is not in the sorted list of people that the
  netting step runs over: no transfer names the payer as debtor or creditor and the
  dense matrix has no cell in the payer's row or column, so what is owed to the payer
  does not reach the output.
\<close>

theorem unlisted_payer_dropped:
  assumes "e \<in> set es" and "payer e \<notin> set ps"
    and "\<forall>e' \<in> set es. payer e \<notin> set (share e')"
  shows "payer e \<notin> set (people_list ps es) \<and>
    (\<forall>t \<in> set (transactions rs ps es). fst t \<noteq> payer e \<and> fst (snd t) \<noteq> payer e) \<and>
    (\<forall>i. cell_opt (reduced_matrix rs ps es) i (payer e) = None \<and>
          cell_opt (reduced_matrix rs ps es) (payer e) i = None)"
proof -
  have absent: "payer e \<notin> set (people_list ps es)"
    using assms by (simp add: people_list_props all_people_eq)
  then show ?thesis
    using transactions_mem [of _ _ _ rs ps es]
    by (auto simp: reduced_matrix_cell)
qed

theorem unlisted_payer_dropped_witness:
  "''Zed'' \<notin> set (people_list [''Bob'']
      [\<lparr>bill_date = ''d1'', reference = ''hotel'', payer = ''Zed'', currency = ''GBP'',
         amount = 100, share = [''Bob'']\<rparr>]) \<and>
   cell (net_transfer Map.empty
      [\<lparr>bill_date = ''d1'', reference = ''hotel'', payer = ''Zed'', currency = ''GBP'',
         amount = 100, share = [''Bob'']\<rparr>]) ''Bob'' ''Zed'' = 100 \<and>
   transactions Map.empty [''Bob'']
      [\<lparr>bill_date = ''d1'', reference = ''hotel'', payer = ''Zed'', currency = ''GBP'',
         amount = 100, share = [''Bob'']\<rparr>] = [] \<and>
   compute_result Map.empty [''Bob'']
      [\<lparr>bill_date = ''d1'', reference = ''hotel'', payer = ''Zed'', currency = ''GBP'',
         amount = 100, share = [''Bob'']\<rparr>] = NoValidData"
proof -
  let ?e = "\<lparr>bill_date = ''d1'', reference = ''hotel'', payer = ''Zed'', currency = ''GBP'',
         amount = 100, share = [''Bob'']\<rparr>"
  have h: "?e \<in> set [?e]" "payer ?e \<notin> set [''Bob'']"
    "\<forall>e' \<in> set [?e]. payer ?e \<notin> set (share e')"
    by simp_all
  have "payer ?e \<notin> set (people_list [''Bob''] [?e])"
    using unlisted_payer_dropped [OF h, of Map.empty] by blast
  then have a: "''Zed'' \<notin> set (people_list [''Bob''] [?e])"
    by simp
  have b: "cell (net_transfer Map.empty [?e]) ''Bob'' ''Zed'' = 100"
    by code_simp
  have c: "transactions Map.empty [''Bob''] [?e] = []"
    by code_simp
  have d: "compute_result Map.empty [''Bob''] [?e] = NoValidData"
    by code_simp
  from a b c d show ?thesis
    by blast
qed

end
